theory Spec2Isabelle
  imports Main "HOL-Library.Multiset"
begin

section \<open>Data model of the global search widget\<close>

text \<open>
  The development embeds \<^verbatim>\<open>src/globalsearch/globalsearchwidget.cpp\<close>.
  A member \<^verbatim>\<open>name_\<close> of the C++ class is the field \<open>name\<close> here
  (an Isabelle name cannot end in an underscore).

  A \<^verbatim>\<open>QString\<close> is a list of characters. Qt's character tables are not part
  of the repository: the case folding used by a case-insensitive comparison and the
  white-space test used by \<^verbatim>\<open>trimmed()\<close> are parameters (\<open>foldCase\<close>,
  \<open>isSpace\<close> of the environment below). A \<^verbatim>\<open>QPixmap\<close> is an opaque handle.

  The \<^verbatim>\<open>int\<close> members are integers without a bound: identifiers are only compared,
  and \<^verbatim>\<open>order_arrived_counter_\<close> grows by one for each batch of a search, so no
  branch of the code depends on an overflow.
\<close>

type_synonym QString = string
type_synonym QPixmap = nat

text \<open>The kinds of result that the switch of \<^verbatim>\<open>CanCombineResults\<close> names.\<close>

datatype Type = Type_Track | Type_Album | Type_Stream

text \<open>The four fields of the song metadata that the widget reads;
  \<open>url\<close> is the string form \<^verbatim>\<open>url().toString()\<close>.\<close>

record Song =
  title :: QString
  album :: QString
  artist :: QString
  url :: QString

text \<open>\<^verbatim>\<open>SearchProvider::Result\<close>; \<open>provider\<close> is \<^verbatim>\<open>provider_->id()\<close>.\<close>

record Result =
  provider :: QString
  rtype :: Type
  match_quality :: int
  metadata :: Song

datatype CombineAction = CannotCombine | LeftPreferred | RightPreferred

text \<open>A row of a \<^verbatim>\<open>QStandardItemModel\<close>: the data roles that \<^verbatim>\<open>AddResults\<close>,
  \<^verbatim>\<open>LazyLoadArt\<close> and \<^verbatim>\<open>ArtLoaded\<close> set on an item.
  \<open>Role_LazyLoadingArt\<close> is true once the role holds data.\<close>

record Item =
  Role_PrimaryResult :: Result
  Role_AllResults :: "Result list"
  Role_OrderArrived :: int
  DecorationRole :: "QPixmap option"
  Role_LazyLoadingArt :: bool

text \<open>The constructor creates two item models and two sort proxies, and the members
  \<^verbatim>\<open>front_model_\<close>, \<^verbatim>\<open>back_model_\<close>, \<^verbatim>\<open>current_model_\<close> (and the same for the
  proxies) are pointers to them. The objects are named here, so that two pointers can be
  the same object. \<open>sourceModel\<close> is the \<^verbatim>\<open>setSourceModel\<close> of the constructor.\<close>

datatype model_ref = Model1 | Model2

datatype proxy_ref = Proxy1 | Proxy2

fun sourceModel :: "proxy_ref \<Rightarrow> model_ref" where
  "sourceModel Proxy1 = Model1"
| "sourceModel Proxy2 = Model2"

text \<open>A \<^verbatim>\<open>QModelIndex\<close> of column 0: invalid (\<open>None\<close>), or a model and a row.\<close>

type_synonym 'm QModelIndex = "('m \<times> nat) option"

datatype QAction = add | add_and_play | add_and_queue | replace | replace_and_play

text \<open>The calls the widget makes on the search engine, in the order made. The identifier
  a call returns is an input of the operation that makes it.\<close>

datatype EngineCall =
  CancelSearch int
| SearchAsync QString
| LoadArtAsync Result
| LoadTracksAsync Result

record GlobalSearchTooltip =
  isVisible :: bool
  ActiveResultIndex :: int

text \<open>What the widget takes from outside the file: Qt's character tables, the order in
  which a sort proxy (\<^verbatim>\<open>GlobalSearchSortModel\<close>) shows the rows of its source model, as
  the list of source rows in proxy order, and the engine's pixmap cache.\<close>

record Env =
  foldCase :: "char \<Rightarrow> char"
  isSpace :: "char \<Rightarrow> bool"
  proxy_rows :: "Item list \<Rightarrow> nat list"
  FindCachedPixmap :: "Result \<Rightarrow> QPixmap option"

text \<open>The members of the widget that the operations below read or write. \<open>model1\<close> and
  \<open>model2\<close> are the rows of the two model objects; \<open>view_model\<close>,
  \<open>view_currentIndex\<close> and \<open>view_isVisible\<close> are the state of the popup
  \<^verbatim>\<open>view_\<close>; \<open>swap_models_timer_active\<close> says that the single-shot timer has been
  started and has not fired; \<open>engine_calls\<close> records the calls on \<^verbatim>\<open>engine_\<close>.
  The geometry of the popup and the keyboard focus are not modelled.\<close>

record GlobalSearchWidget =
  last_id :: int
  order_arrived_counter :: int
  model1 :: "Item list"
  model2 :: "Item list"
  front_model :: model_ref
  back_model :: model_ref
  current_model :: model_ref
  front_proxy :: proxy_ref
  back_proxy :: proxy_ref
  current_proxy :: proxy_ref
  view_model :: proxy_ref
  view_currentIndex :: "proxy_ref QModelIndex"
  view_isVisible :: bool
  tooltip :: "GlobalSearchTooltip option"
  swap_models_timer_active :: bool
  art_requests :: "int \<Rightarrow> (model_ref \<times> nat) option"
  track_requests :: "int \<Rightarrow> QAction option option"
  combine_identical_results :: bool
  provider_order :: "QString list"
  engine_calls :: "EngineCall list"

section \<open>Library functions the widget calls\<close>

text \<open>\<^verbatim>\<open>QList::indexOf\<close>: the position of the first element equal to \<open>x\<close>,
  \<open>-1\<close> when there is none.\<close>

fun indexOf_from :: "int \<Rightarrow> 'a list \<Rightarrow> 'a \<Rightarrow> int" where
  "indexOf_from i [] x = -1"
| "indexOf_from i (y # ys) x = (if y = x then i else indexOf_from (i + 1) ys x)"

definition indexOf :: "'a list \<Rightarrow> 'a \<Rightarrow> int" where
  "indexOf xs x = indexOf_from 0 xs x"

text \<open>\<^verbatim>\<open>QString::compare(a, b, Qt::CaseInsensitive)\<close>: the two strings are walked
  together; the first position where the folded characters differ gives the sign, and
  otherwise the shorter string is the smaller one.\<close>

fun QString_compare :: "(char \<Rightarrow> char) \<Rightarrow> QString \<Rightarrow> QString \<Rightarrow> int" where
  "QString_compare f [] [] = 0"
| "QString_compare f [] (y # ys) = -1"
| "QString_compare f (x # xs) [] = 1"
| "QString_compare f (x # xs) (y # ys) =
     (let diff = int (of_char (f x) :: nat) - int (of_char (f y) :: nat)
      in if diff = 0 then QString_compare f xs ys else diff)"

section \<open>CanCombineResults\<close>

text \<open>The macro \<^verbatim>\<open>StringsDiffer(field)\<close> of \<^verbatim>\<open>CanCombineResults\<close>.\<close>

definition StringsDiffer ::
  "(char \<Rightarrow> char) \<Rightarrow> Result \<Rightarrow> Result \<Rightarrow> (Song \<Rightarrow> QString) \<Rightarrow> bool" where
  "StringsDiffer f r1 r2 field =
     (QString_compare f (field (metadata r1)) (field (metadata r2)) \<noteq> 0)"

text \<open>The body of \<^verbatim>\<open>CanCombineResults\<close> once the two primary results have been read
  from the indexes. The \<^verbatim>\<open>Type_Track\<close> case falls through into the
  \<^verbatim>\<open>Type_Album\<close> case.\<close>

definition CanCombine ::
  "(char \<Rightarrow> char) \<Rightarrow> QString list \<Rightarrow> Result \<Rightarrow> Result \<Rightarrow> CombineAction" where
  "CanCombine f order r1 r2 =
     (if match_quality r1 \<noteq> match_quality r2 \<or> rtype r1 \<noteq> rtype r2 then CannotCombine
      else if (case rtype r1 of
                 Type_Track \<Rightarrow>
                   (if StringsDiffer f r1 r2 title then True
                    else StringsDiffer f r1 r2 album \<or> StringsDiffer f r1 r2 artist)
               | Type_Album \<Rightarrow> StringsDiffer f r1 r2 album \<or> StringsDiffer f r1 r2 artist
               | Type_Stream \<Rightarrow> StringsDiffer f r1 r2 url)
      then CannotCombine
      else (let p1 = indexOf order (provider r1);
                p2 = indexOf order (provider r2)
            in if p2 > p1 then RightPreferred else LeftPreferred))"

subsection \<open>The equivalence test as the specification words it\<close>

definition equal_ignoring_case :: "(char \<Rightarrow> char) \<Rightarrow> QString \<Rightarrow> QString \<Rightarrow> bool" where
  "equal_ignoring_case f a b = (map f a = map f b)"

text \<open>Three checks in order, the first mismatch answering "not equivalent":
  the match quality, the kind, the fields of the kind.\<close>

definition spec_equivalent :: "(char \<Rightarrow> char) \<Rightarrow> Result \<Rightarrow> Result \<Rightarrow> bool" where
  "spec_equivalent f r1 r2 =
     (if match_quality r1 = match_quality r2 then
        (if rtype r1 = rtype r2 then
           (case rtype r1 of
              Type_Track \<Rightarrow>
                equal_ignoring_case f (title (metadata r1)) (title (metadata r2)) \<and>
                equal_ignoring_case f (album (metadata r1)) (album (metadata r2)) \<and>
                equal_ignoring_case f (artist (metadata r1)) (artist (metadata r2))
            | Type_Album \<Rightarrow>
                equal_ignoring_case f (album (metadata r1)) (album (metadata r2)) \<and>
                equal_ignoring_case f (artist (metadata r1)) (artist (metadata r2))
            | Type_Stream \<Rightarrow>
                equal_ignoring_case f (url (metadata r1)) (url (metadata r2)))
         else False)
      else False)"

section \<open>Models, proxies and indexes\<close>

definition rows :: "GlobalSearchWidget \<Rightarrow> model_ref \<Rightarrow> Item list" where
  "rows w m = (case m of Model1 \<Rightarrow> model1 w | Model2 \<Rightarrow> model2 w)"

definition set_rows :: "model_ref \<Rightarrow> Item list \<Rightarrow> GlobalSearchWidget \<Rightarrow> GlobalSearchWidget" where
  "set_rows m xs w = (case m of Model1 \<Rightarrow> w\<lparr>model1 := xs\<rparr> | Model2 \<Rightarrow> w\<lparr>model2 := xs\<rparr>)"

text \<open>\<^verbatim>\<open>removeRow\<close>: the rows after the removed one move up.\<close>

definition removeRow :: "nat \<Rightarrow> 'a list \<Rightarrow> 'a list" where
  "removeRow i xs = take i xs @ drop (Suc i) xs"

fun position :: "'a \<Rightarrow> 'a list \<Rightarrow> nat option" where
  "position x [] = None"
| "position x (y # ys) = (if x = y then Some 0 else map_option Suc (position x ys))"

text \<open>The source rows of a proxy in the order the proxy shows them.\<close>

definition proxy_order :: "Env \<Rightarrow> GlobalSearchWidget \<Rightarrow> proxy_ref \<Rightarrow> nat list" where
  "proxy_order env w p = proxy_rows env (rows w (sourceModel p))"

text \<open>\<^verbatim>\<open>proxy->index(row, 0)\<close>: invalid when the proxy has no such row.\<close>

definition proxy_index :: "Env \<Rightarrow> GlobalSearchWidget \<Rightarrow> proxy_ref \<Rightarrow> nat \<Rightarrow> proxy_ref QModelIndex" where
  "proxy_index env w p row = (if row < length (proxy_order env w p) then Some (p, row) else None)"

text \<open>\<^verbatim>\<open>index.sibling(row, 0)\<close>: the invalid index has no siblings.\<close>

definition sibling ::
  "Env \<Rightarrow> GlobalSearchWidget \<Rightarrow> proxy_ref QModelIndex \<Rightarrow> nat \<Rightarrow> proxy_ref QModelIndex" where
  "sibling env w index row =
     (case index of None \<Rightarrow> None | Some (p, r) \<Rightarrow> proxy_index env w p row)"

definition mapFromSource ::
  "Env \<Rightarrow> GlobalSearchWidget \<Rightarrow> proxy_ref \<Rightarrow> model_ref QModelIndex \<Rightarrow> proxy_ref QModelIndex" where
  "mapFromSource env w p source_index =
     (case source_index of
        None \<Rightarrow> None
      | Some (m, r) \<Rightarrow>
          (if m = sourceModel p then
             (case position r (proxy_order env w p) of
                None \<Rightarrow> None
              | Some k \<Rightarrow> Some (p, k))
           else None))"

definition mapToSource ::
  "Env \<Rightarrow> GlobalSearchWidget \<Rightarrow> proxy_ref \<Rightarrow> proxy_ref QModelIndex \<Rightarrow> model_ref QModelIndex" where
  "mapToSource env w p index =
     (case index of
        None \<Rightarrow> None
      | Some (q, k) \<Rightarrow>
          (if q = p \<and> k < length (proxy_order env w p)
           then Some (sourceModel p, proxy_order env w p ! k) else None))"

text \<open>\<^verbatim>\<open>model->itemFromIndex(index)\<close>: the item is named by its row in the model;
  \<open>None\<close> is the null pointer (an invalid index, or an index of another model). An
  index whose row the model no longer has is outside this model of the code and is
  answered \<open>None\<close> as well. Every caller dereferences the pointer at once, so \<open>None\<close>
  makes the caller fail.\<close>

definition itemFromIndex ::
  "GlobalSearchWidget \<Rightarrow> model_ref \<Rightarrow> model_ref QModelIndex \<Rightarrow> nat option" where
  "itemFromIndex w m index =
     (case index of
        None \<Rightarrow> None
      | Some (m', r) \<Rightarrow> (if m' = m \<and> r < length (rows w m) then Some r else None))"

text \<open>\<^verbatim>\<open>index.data(role)\<close> of a proxy index: the item it maps to, if any.\<close>

definition index_data :: "Env \<Rightarrow> GlobalSearchWidget \<Rightarrow> proxy_ref QModelIndex \<Rightarrow> Item option" where
  "index_data env w index =
     (case index of
        None \<Rightarrow> None
      | Some (p, k) \<Rightarrow>
          (case mapToSource env w p index of
             None \<Rightarrow> None
           | Some (m, r) \<Rightarrow> (if r < length (rows w m) then Some (rows w m ! r) else None)))"

section \<open>The popup\<close>

definition HidePopup :: "GlobalSearchWidget \<Rightarrow> GlobalSearchWidget" where
  "HidePopup w =
     w\<lparr>tooltip := map_option (\<lambda>t. t\<lparr>isVisible := False\<rparr>) (tooltip w),
       view_isVisible := False\<rparr>"

definition RepositionPopup :: "GlobalSearchWidget \<Rightarrow> GlobalSearchWidget" where
  "RepositionPopup w =
     (if length (rows w (front_model w)) = 0 then HidePopup w
      else w\<lparr>view_isVisible := True\<rparr>)"

section \<open>Sessions and cutover\<close>

text \<open>\<^verbatim>\<open>QString::trimmed\<close>: white space removed at both ends.\<close>

definition trimmed :: "(char \<Rightarrow> bool) \<Rightarrow> QString \<Rightarrow> QString" where
  "trimmed sp text = rev (dropWhile sp (rev (dropWhile sp text)))"

text \<open>\<open>search_id\<close> is the identifier that \<^verbatim>\<open>engine_->SearchAsync\<close> returns.\<close>

definition TextEdited :: "Env \<Rightarrow> int \<Rightarrow> QString \<Rightarrow> GlobalSearchWidget \<Rightarrow> GlobalSearchWidget" where
  "TextEdited env search_id text w =
     (let trimmed_text = trimmed (isSpace env) text in
      if length trimmed_text < 3 then RepositionPopup w
      else
        (let w1 = set_rows (back_model w) [] w;
             w2 = w1\<lparr>current_model := back_model w1, current_proxy := back_proxy w1,
                     order_arrived_counter := 0, swap_models_timer_active := True\<rparr>;
             w3 = w2\<lparr>engine_calls :=
                       engine_calls w2 @ [CancelSearch (last_id w2), SearchAsync trimmed_text]\<rparr>
         in w3\<lparr>last_id := search_id\<rparr>))"

text \<open>\<^verbatim>\<open>view_->setModel\<close> gives the view a new selection, with no current index.\<close>

definition SwapModels :: "GlobalSearchWidget \<Rightarrow> GlobalSearchWidget" where
  "SwapModels w =
     RepositionPopup
       (w\<lparr>art_requests := Map.empty,
          front_model := back_model w, back_model := front_model w,
          front_proxy := back_proxy w, back_proxy := front_proxy w,
          view_model := back_proxy w, view_currentIndex := None\<rparr>)"

text \<open>The \<^verbatim>\<open>timeout()\<close> signal of \<^verbatim>\<open>swap_models_timer_\<close>, connected to
  \<^verbatim>\<open>SwapModels\<close>. The timer is single-shot: it fires once after a start, and a
  timer that has not been started again does not fire.\<close>

definition swap_models_timer_timeout :: "GlobalSearchWidget \<Rightarrow> GlobalSearchWidget" where
  "swap_models_timer_timeout w =
     (if swap_models_timer_active w then SwapModels (w\<lparr>swap_models_timer_active := False\<rparr>)
      else w)"

section \<open>Combining results\<close>

text \<open>\<^verbatim>\<open>CanCombineResults\<close> on two proxy indexes. An index without data gives a
  default-constructed result, whose provider pointer the function may dereference: that
  case is \<open>None\<close>.\<close>

definition CanCombineResults ::
  "Env \<Rightarrow> GlobalSearchWidget \<Rightarrow> proxy_ref QModelIndex \<Rightarrow> proxy_ref QModelIndex
     \<Rightarrow> CombineAction option" where
  "CanCombineResults env w left right =
     (case index_data env w left of
        None \<Rightarrow> None
      | Some l \<Rightarrow>
          (case index_data env w right of
             None \<Rightarrow> None
           | Some r \<Rightarrow>
               Some (CanCombine (foldCase env) (provider_order w)
                       (Role_PrimaryResult l) (Role_PrimaryResult r))))"

definition CombineResults ::
  "Env \<Rightarrow> proxy_ref QModelIndex \<Rightarrow> proxy_ref QModelIndex \<Rightarrow> GlobalSearchWidget
     \<Rightarrow> GlobalSearchWidget option" where
  "CombineResults env superior inferior w =
     (let cm = current_model w; cp = current_proxy w in
      case itemFromIndex w cm (mapToSource env w cp superior) of
        None \<Rightarrow> None
      | Some superior_item \<Rightarrow>
          (case itemFromIndex w cm (mapToSource env w cp inferior) of
             None \<Rightarrow> None
           | Some inferior_item \<Rightarrow>
               (let items = rows w cm;
                    superior_results =
                      Role_AllResults (items ! superior_item) @
                      Role_AllResults (items ! inferior_item);
                    items1 = items[superior_item :=
                      (items ! superior_item)\<lparr>Role_AllResults := superior_results\<rparr>]
                in Some (set_rows cm (removeRow inferior_item items1) w))))"

text \<open>The loop \<^verbatim>\<open>for (int i=my_proxy_index.row()-1 ; i>=0 ; --i)\<close>.\<close>

fun rows_before :: "nat \<Rightarrow> nat list" where
  "rows_before 0 = []"
| "rows_before (Suc i) = i # rows_before i"

text \<open>The list \<^verbatim>\<open>candidates\<close> of \<^verbatim>\<open>AddResults\<close>. The invalid index has row \<open>-1\<close>:
  its only candidate is its (invalid) sibling.\<close>

definition candidates ::
  "Env \<Rightarrow> GlobalSearchWidget \<Rightarrow> proxy_ref QModelIndex \<Rightarrow> proxy_ref QModelIndex list" where
  "candidates env w my_proxy_index =
     (case my_proxy_index of
        None \<Rightarrow> [None]
      | Some (p, row) \<Rightarrow>
          sibling env w my_proxy_index (row + 1) #
          map (sibling env w my_proxy_index) (rows_before row))"

text \<open>The loop \<^verbatim>\<open>foreach (const QModelIndex& index, candidates)\<close>: an invalid
  candidate and a candidate that cannot be combined are passed over; the first one that
  can be combined is combined and ends the loop.\<close>

fun combine_scan ::
  "Env \<Rightarrow> proxy_ref QModelIndex \<Rightarrow> proxy_ref QModelIndex list \<Rightarrow> GlobalSearchWidget
     \<Rightarrow> GlobalSearchWidget option" where
  "combine_scan env my_proxy_index [] w = Some w"
| "combine_scan env my_proxy_index (index # rest) w =
     (if index = None then combine_scan env my_proxy_index rest w
      else
        (case CanCombineResults env w my_proxy_index index of
           None \<Rightarrow> None
         | Some CannotCombine \<Rightarrow> combine_scan env my_proxy_index rest w
         | Some LeftPreferred \<Rightarrow> CombineResults env my_proxy_index index w
         | Some RightPreferred \<Rightarrow> CombineResults env index my_proxy_index w))"

section \<open>AddResults\<close>

text \<open>The item \<^verbatim>\<open>AddResults\<close> makes for a result, and \<^verbatim>\<open>appendRow\<close>.\<close>

definition new_item :: "Env \<Rightarrow> GlobalSearchWidget \<Rightarrow> Result \<Rightarrow> Item" where
  "new_item env w result =
     \<lparr>Role_PrimaryResult = result, Role_AllResults = [result],
      Role_OrderArrived = order_arrived_counter w,
      DecorationRole = FindCachedPixmap env result,
      Role_LazyLoadingArt = False\<rparr>"

definition appendRow :: "model_ref \<Rightarrow> Item \<Rightarrow> GlobalSearchWidget \<Rightarrow> GlobalSearchWidget" where
  "appendRow m item w = set_rows m (rows w m @ [item]) w"

text \<open>\<^verbatim>\<open>current_proxy_->mapFromSource(item->index())\<close> for the item just appended
  to \<^verbatim>\<open>current_model_\<close>: it is the last row of that model.\<close>

definition my_proxy_index :: "Env \<Rightarrow> GlobalSearchWidget \<Rightarrow> proxy_ref QModelIndex" where
  "my_proxy_index env w1 =
     mapFromSource env w1 (current_proxy w1)
       (Some (current_model w1, length (rows w1 (current_model w1)) - 1))"

text \<open>The body of the loop over the results of a batch.\<close>

definition add_result :: "Env \<Rightarrow> GlobalSearchWidget \<Rightarrow> Result \<Rightarrow> GlobalSearchWidget option" where
  "add_result env w result =
     (let w1 = appendRow (current_model w) (new_item env w result) w
      in if combine_identical_results w1 then
           combine_scan env (my_proxy_index env w1) (candidates env w1 (my_proxy_index env w1)) w1
         else Some w1)"

fun add_results_loop ::
  "Env \<Rightarrow> GlobalSearchWidget \<Rightarrow> Result list \<Rightarrow> GlobalSearchWidget option" where
  "add_results_loop env w [] = Some w"
| "add_results_loop env w (result # results) =
     (case add_result env w result of
        None \<Rightarrow> None
      | Some w' \<Rightarrow> add_results_loop env w' results)"

definition AddResults ::
  "Env \<Rightarrow> int \<Rightarrow> Result list \<Rightarrow> GlobalSearchWidget \<Rightarrow> GlobalSearchWidget option" where
  "AddResults env search_id results w =
     (if search_id \<noteq> last_id w then Some w
      else
        (case add_results_loop env w results of
           None \<Rightarrow> None
         | Some w' \<Rightarrow>
             Some (RepositionPopup
                     (w'\<lparr>order_arrived_counter := order_arrived_counter w' + 1\<rparr>))))"

section \<open>Art and track requests\<close>

text \<open>\<open>art_id\<close> is the identifier that \<^verbatim>\<open>engine_->LoadArtAsync\<close> returns.\<close>

definition LazyLoadArt ::
  "Env \<Rightarrow> int \<Rightarrow> proxy_ref QModelIndex \<Rightarrow> GlobalSearchWidget \<Rightarrow> GlobalSearchWidget option" where
  "LazyLoadArt env art_id index w =
     (if index = None then Some w
      else if (case index_data env w index of
                 None \<Rightarrow> False
               | Some item \<Rightarrow> Role_LazyLoadingArt item) then Some w
      else if map_option fst index \<noteq> Some (front_proxy w) then Some w
      else
        (let source_index = mapToSource env w (front_proxy w) index in
         case itemFromIndex w (front_model w) source_index of
           None \<Rightarrow> None
         | Some r \<Rightarrow>
             (let items = rows w (front_model w);
                  item = items ! r;
                  w1 = set_rows (front_model w) (items[r := item\<lparr>Role_LazyLoadingArt := True\<rparr>]) w
              in Some (w1\<lparr>engine_calls :=
                            engine_calls w1 @ [LoadArtAsync (Role_PrimaryResult item)],
                          art_requests := (art_requests w1)(art_id \<mapsto> (front_model w, r))\<rparr>))))"

definition ArtLoaded :: "int \<Rightarrow> QPixmap \<Rightarrow> GlobalSearchWidget \<Rightarrow> GlobalSearchWidget option" where
  "ArtLoaded art_id pixmap w =
     (case art_requests w art_id of
        None \<Rightarrow> Some w
      | Some index \<Rightarrow>
          (let w1 = w\<lparr>art_requests := (art_requests w)(art_id := None)\<rparr> in
           case itemFromIndex w1 (front_model w1) (Some index) of
             None \<Rightarrow> None
           | Some r \<Rightarrow>
               (let items = rows w1 (front_model w1)
                in Some (set_rows (front_model w1)
                           (items[r := (items ! r)\<lparr>DecorationRole := Some pixmap\<rparr>]) w1))))"

text \<open>The three values \<^verbatim>\<open>LoadTracks\<close> computes before it decides: the index to
  activate, the alternative asked for, and the alternatives of the index.\<close>

definition LoadTracks_index :: "Env \<Rightarrow> GlobalSearchWidget \<Rightarrow> proxy_ref QModelIndex" where
  "LoadTracks_index env w =
     (if view_currentIndex w = None then proxy_index env w (front_proxy w) 0
      else view_currentIndex w)"

definition LoadTracks_result_index :: "GlobalSearchWidget \<Rightarrow> int" where
  "LoadTracks_result_index w =
     (case tooltip w of
        None \<Rightarrow> 0
      | Some t \<Rightarrow> (if isVisible t then ActiveResultIndex t else 0))"

definition LoadTracks_results :: "Env \<Rightarrow> GlobalSearchWidget \<Rightarrow> Result list" where
  "LoadTracks_results env w =
     (case index_data env w (LoadTracks_index env w) of
        None \<Rightarrow> []
      | Some item \<Rightarrow> Role_AllResults item)"

text \<open>\<open>track_id\<close> is the identifier that \<^verbatim>\<open>engine_->LoadTracksAsync\<close> returns;
  the trigger \<open>None\<close> is the null action of a double click.\<close>

definition LoadTracks ::
  "Env \<Rightarrow> int \<Rightarrow> QAction option \<Rightarrow> GlobalSearchWidget \<Rightarrow> GlobalSearchWidget" where
  "LoadTracks env track_id trigger w =
     (if LoadTracks_index env w = None then w
      else
        (let result_index = LoadTracks_result_index w;
             results = LoadTracks_results env w
         in if result_index < 0 \<or> result_index \<ge> int (length results) then w
            else w\<lparr>engine_calls :=
                     engine_calls w @ [LoadTracksAsync (results ! nat result_index)],
                   track_requests := (track_requests w)(track_id \<mapsto> trigger)\<rparr>))"

section \<open>The constructor\<close>

text \<open>The two arguments are the settings that \<^verbatim>\<open>ReloadSettings\<close> reads.\<close>

definition GlobalSearchWidget_new :: "bool \<Rightarrow> QString list \<Rightarrow> GlobalSearchWidget" where
  "GlobalSearchWidget_new combine order =
     \<lparr>last_id = 0, order_arrived_counter = 0, model1 = [], model2 = [],
      front_model = Model1, back_model = Model2, current_model = Model1,
      front_proxy = Proxy1, back_proxy = Proxy2, current_proxy = Proxy1,
      view_model = Proxy1, view_currentIndex = None, view_isVisible = False,
      tooltip = None, swap_models_timer_active = False,
      art_requests = Map.empty, track_requests = Map.empty,
      combine_identical_results = combine, provider_order = order,
      engine_calls = []\<rparr>"

section \<open>The candidates as the specification words them\<close>

text \<open>For a new record at position \<open>row\<close> of a sort order of \<open>n\<close> records: the record
  immediately following it, then every record before it from the nearest to the
  farthest.\<close>

definition spec_candidates :: "nat \<Rightarrow> nat \<Rightarrow> nat list" where
  "spec_candidates row n = (if row + 1 < n then [row + 1] else []) @ rev [0..<row]"

section \<open>Well-behaved sort proxies\<close>

text \<open>A sort proxy shows every row of its source model once.\<close>

definition shows_every_row :: "Env \<Rightarrow> bool" where
  "shows_every_row env = (\<forall>items. mset (proxy_rows env items) = mset [0..<length items])"

text \<open>The constructor points each proxy pointer at the proxy of the model that the model
  pointer of the same role points at, and the two roles at different objects; every
  operation keeps it so.\<close>

definition proxies_aligned :: "GlobalSearchWidget \<Rightarrow> bool" where
  "proxies_aligned w =
     (sourceModel (front_proxy w) = front_model w \<and>
      sourceModel (back_proxy w) = back_model w \<and>
      sourceModel (current_proxy w) = current_model w \<and>
      front_model w \<noteq> back_model w)"

text \<open>All the alternatives held by the rows of a model.\<close>

definition all_alternatives :: "Item list \<Rightarrow> Result list" where
  "all_alternatives items = concat (map Role_AllResults items)"

section \<open>What the consumer observes\<close>

text \<open>The alternatives of the rows of the model the view shows, and of the model that
  \<^verbatim>\<open>AddResults\<close> fills.\<close>

definition front_alternatives :: "GlobalSearchWidget \<Rightarrow> Result list list" where
  "front_alternatives w = map Role_AllResults (rows w (front_model w))"

definition current_alternatives :: "GlobalSearchWidget \<Rightarrow> Result list list" where
  "current_alternatives w = map Role_AllResults (rows w (current_model w))"

definition current_primaries :: "GlobalSearchWidget \<Rightarrow> Result list" where
  "current_primaries w = map Role_PrimaryResult (rows w (current_model w))"

section \<open>Examples used by the concrete checks\<close>

text \<open>A case folding of the ASCII letters, to instantiate \<open>foldCase\<close>.\<close>

definition ascii_fold :: "char \<Rightarrow> char" where
  "ascii_fold c =
     (case map_of (zip ''ABCDEFGHIJKLMNOPQRSTUVWXYZ'' ''abcdefghijklmnopqrstuvwxyz'') c of
        Some d \<Rightarrow> d
      | None \<Rightarrow> c)"

definition money :: Song where
  "money = \<lparr>title = ''Money'', album = ''The Dark Side of the Moon'',
     artist = ''Pink Floyd'', url = ''''\<rparr>"

definition r_library :: Result where
  "r_library = \<lparr>provider = ''library'', rtype = Type_Track, match_quality = 0,
     metadata = money\<rparr>"

definition r_lastfm :: Result where
  "r_lastfm = \<lparr>provider = ''lastfm'', rtype = Type_Track, match_quality = 0,
     metadata = money\<lparr>title := ''MONEY''\<rparr>\<rparr>"

text \<open>An environment: white space is the blank, the proxy sorts the rows by match
  quality (rows of equal quality in the order of the source model), no pixmap is cached.\<close>

definition env0 :: Env where
  "env0 = \<lparr>foldCase = ascii_fold, isSpace = (\<lambda>c. c = CHR '' ''),
     proxy_rows = (\<lambda>items.
       sort_key (\<lambda>r. match_quality (Role_PrimaryResult (items ! r))) [0..<length items]),
     FindCachedPixmap = (\<lambda>r. None)\<rparr>"

text \<open>Two providers in the preference list, \<open>P1\<close> at index 0 and \<open>P2\<close> at index
  1, and the same track from each.\<close>

definition widget_P :: GlobalSearchWidget where
  "widget_P = GlobalSearchWidget_new True [''P1'', ''P2'']"

definition r_P1 :: Result where
  "r_P1 = \<lparr>provider = ''P1'', rtype = Type_Track, match_quality = 0, metadata = money\<rparr>"

definition r_P2 :: Result where
  "r_P2 = \<lparr>provider = ''P2'', rtype = Type_Track, match_quality = 0, metadata = money\<rparr>"

text \<open>A widget with the default settings.\<close>

definition widget0 :: GlobalSearchWidget where
  "widget0 = GlobalSearchWidget_new True [''library'']"

text \<open>The widget after the query \<open>dark side\<close> has started search 7, with either
  setting of the preference list.\<close>

definition widget_session :: GlobalSearchWidget where
  "widget_session = TextEdited env0 7 ''dark side'' widget0"

definition widget_P_session :: GlobalSearchWidget where
  "widget_P_session = TextEdited env0 7 ''dark side'' widget_P"

text \<open>Three rows in the model being filled, of match quality 0, 2 and 1; the proxy
  shows them in the order 0, 1, 2 of their qualities.\<close>

definition widget_three :: GlobalSearchWidget where
  "widget_three =
     appendRow Model2 (new_item env0 widget_session (r_lastfm\<lparr>match_quality := 1\<rparr>))
       (appendRow Model2 (new_item env0 widget_session (r_library\<lparr>match_quality := 2\<rparr>))
          (appendRow Model2 (new_item env0 widget_session r_library) widget_session))"

text \<open>A fourth result, of match quality 1, and the model once it has been appended:
  the proxy shows the new row at position 2, after the row of quality 1 already there.\<close>

definition r_new :: Result where
  "r_new = r_library\<lparr>match_quality := 1\<rparr>"

definition widget_four :: GlobalSearchWidget where
  "widget_four = appendRow Model2 (new_item env0 widget_three r_new) widget_three"

text \<open>The same track from \<open>P1\<close> and then from \<open>P2\<close> in the model being filled.\<close>

definition widget_P_two :: GlobalSearchWidget where
  "widget_P_two =
     appendRow Model2 (new_item env0 widget_P_session r_P2)
       (appendRow Model2 (new_item env0 widget_P_session r_P1) widget_P_session)"

text \<open>The widget after the timer of search 7 has fired and a batch of one result has
  arrived: the popup shows one row.\<close>

definition widget_shown :: GlobalSearchWidget where
  "widget_shown =
     RepositionPopup
       ((appendRow Model2 (new_item env0 (swap_models_timer_timeout widget_session) r_library)
           (swap_models_timer_timeout widget_session))\<lparr>order_arrived_counter := 1\<rparr>)"


text \<open>A tooltip that is showing and asks for the alternative 5.\<close>

definition tooltip5 :: GlobalSearchTooltip where
  "tooltip5 = \<lparr>isVisible = True, ActiveResultIndex = 5\<rparr>"

section \<open>Properties of the comparison\<close>

lemma QString_compare_zero_iff:
  "QString_compare f a b = 0 \<longleftrightarrow> map f a = map f b"
proof (induction f a b rule: QString_compare.induct)
  case (4 f x xs y ys)
  have "(int (of_char (f x) :: nat) - int (of_char (f y) :: nat) = 0) = (f x = f y)"
    by auto
  with 4 show ?case by (auto simp: Let_def)
qed simp_all

lemma StringsDiffer_iff:
  "StringsDiffer f r1 r2 field \<longleftrightarrow>
     \<not> equal_ignoring_case f (field (metadata r1)) (field (metadata r2))"
  by (simp add: StringsDiffer_def equal_ignoring_case_def QString_compare_zero_iff)

text \<open>
  C2. Two results are judged combinable by \<^verbatim>\<open>CanCombineResults\<close> (any answer but
  \<open>CannotCombine\<close>) exactly when the specification's ordered test accepts them: equal
  match quality, equal kind, and the fields of the kind equal up to case (title, album
  and artist of a track; album and artist of an album; the URL string of a stream).
\<close>

theorem CanCombine_iff_spec_equivalent:
  "CanCombine f order r1 r2 \<noteq> CannotCombine \<longleftrightarrow> spec_equivalent f r1 r2"
  by (cases "rtype r1")
     (simp_all add: CanCombine_def spec_equivalent_def StringsDiffer_iff Let_def)

theorem CanCombine_iff_spec_equivalent_witness:
  "CanCombine ascii_fold [''library''] r_library r_lastfm \<noteq> CannotCombine \<and>
   spec_equivalent ascii_fold r_library r_lastfm \<and>
   spec_equivalent ascii_fold r_library (r_lastfm\<lparr>rtype := Type_Album\<rparr>) = False"
proof -
  have "spec_equivalent ascii_fold r_library r_lastfm"
    by (simp add: spec_equivalent_def equal_ignoring_case_def r_library_def r_lastfm_def
        money_def ascii_fold_def)
  moreover have "\<not> spec_equivalent ascii_fold r_library (r_lastfm\<lparr>rtype := Type_Album\<rparr>)"
    by (simp add: spec_equivalent_def r_library_def r_lastfm_def)
  ultimately show ?thesis
    using CanCombine_iff_spec_equivalent [of ascii_fold "[''library'']" r_library r_lastfm]
    by simp
qed

section \<open>The preferred side of two equivalent results\<close>

lemma indexOf_from_absent: "x \<notin> set xs \<Longrightarrow> indexOf_from i xs x = -1"
  by (induction xs arbitrary: i) auto

lemma indexOf_absent: "x \<notin> set xs \<Longrightarrow> indexOf xs x = -1"
  by (simp add: indexOf_def indexOf_from_absent)

lemma CanCombine_action:
  "CanCombine f order r1 r2 \<noteq> CannotCombine \<Longrightarrow>
   CanCombine f order r1 r2 =
     (if indexOf order (provider r1) < indexOf order (provider r2) then RightPreferred
      else LeftPreferred)"
  by (simp add: CanCombine_def Let_def split: if_splits)

text \<open>
  C1, as the code has it. When the new record \<open>my\<close> (the left operand) and a valid
  candidate \<open>index\<close> (the right operand) hold equivalent results, the scan combines them
  at once, and the superior record is the one whose provider has the \<^emph>\<open>greater\<close>
  position in \<^verbatim>\<open>provider_order_\<close> (a provider that is not listed has position
  \<open>-1\<close>, below every listed one): the candidate when its position is strictly
  greater, the new record otherwise. In particular the left operand is superior when
  neither provider is listed.
\<close>

theorem superior_has_greater_index:
  assumes "index_data env w my = Some l" and "index_data env w index = Some r"
    and "CanCombine (foldCase env) (provider_order w)
           (Role_PrimaryResult l) (Role_PrimaryResult r) \<noteq> CannotCombine"
  shows "combine_scan env my (index # rest) w =
           (if indexOf (provider_order w) (provider (Role_PrimaryResult l))
               < indexOf (provider_order w) (provider (Role_PrimaryResult r))
            then CombineResults env index my w
            else CombineResults env my index w) \<and>
         (provider (Role_PrimaryResult l) \<notin> set (provider_order w) \<and>
          provider (Role_PrimaryResult r) \<notin> set (provider_order w) \<longrightarrow>
            combine_scan env my (index # rest) w = CombineResults env my index w)"
proof -
  from assms(2) have valid: "index \<noteq> None"
    by (cases index) (simp_all add: index_data_def)
  have act: "CanCombineResults env w my index =
      Some (if indexOf (provider_order w) (provider (Role_PrimaryResult l))
               < indexOf (provider_order w) (provider (Role_PrimaryResult r))
            then RightPreferred else LeftPreferred)"
    using assms CanCombine_action [OF assms(3)] by (simp add: CanCombineResults_def)
  have first: "combine_scan env my (index # rest) w =
           (if indexOf (provider_order w) (provider (Role_PrimaryResult l))
               < indexOf (provider_order w) (provider (Role_PrimaryResult r))
            then CombineResults env index my w
            else CombineResults env my index w)"
    using valid act by (cases index) simp_all
  then show ?thesis
    by (simp add: indexOf_absent)
qed

text \<open>The theorem at the second of two equivalent tracks: the new record comes from
  \<open>P2\<close> (position 1), the candidate from \<open>P1\<close> (position 0), and the new record
  is the superior one.\<close>

theorem superior_has_greater_index_witness:
  "index_data env0 widget_P_two (Some (Proxy2, 1)) = Some (new_item env0 widget_P_session r_P2) \<and>
   index_data env0 widget_P_two (Some (Proxy2, 0)) = Some (new_item env0 widget_P_session r_P1) \<and>
   CanCombine (foldCase env0) (provider_order widget_P_two) r_P2 r_P1 \<noteq> CannotCombine \<and>
   combine_scan env0 (Some (Proxy2, 1)) [Some (Proxy2, 0)] widget_P_two =
     CombineResults env0 (Some (Proxy2, 1)) (Some (Proxy2, 0)) widget_P_two"
proof -
  have h1: "index_data env0 widget_P_two (Some (Proxy2, 1)) =
      Some (new_item env0 widget_P_session r_P2)"
    by code_simp
  have h2: "index_data env0 widget_P_two (Some (Proxy2, 0)) =
      Some (new_item env0 widget_P_session r_P1)"
    by code_simp
  have pr: "Role_PrimaryResult (new_item env0 widget_P_session r_P2) = r_P2"
    "Role_PrimaryResult (new_item env0 widget_P_session r_P1) = r_P1"
    by (simp_all add: new_item_def)
  have h3: "CanCombine (foldCase env0) (provider_order widget_P_two) r_P2 r_P1 \<noteq> CannotCombine"
    by code_simp
  have ix: "\<not> indexOf (provider_order widget_P_two) (provider r_P2)
              < indexOf (provider_order widget_P_two) (provider r_P1)"
    by code_simp
  from superior_has_greater_index [OF h1 h2, of "[]"] h3 ix pr
  have "combine_scan env0 (Some (Proxy2, 1)) [Some (Proxy2, 0)] widget_P_two =
     CombineResults env0 (Some (Proxy2, 1)) (Some (Proxy2, 0)) widget_P_two"
    by simp
  with h1 h2 h3 show ?thesis by simp
qed

text \<open>C1 as the specification states it fails. With \<open>P1\<close> at index 0 and \<open>P2\<close> at
  index 1 and the same track from each, the merged record has the result of \<open>P2\<close> as
  its primary and first alternative and the result of \<open>P1\<close> appended, in either order
  of arrival.\<close>

theorem lower_index_is_not_superior:
  "indexOf (provider_order widget_P_session) (provider r_P1) = 0 \<and>
   indexOf (provider_order widget_P_session) (provider r_P2) = 1 \<and>
   spec_equivalent (foldCase env0) r_P1 r_P2 \<and>
   map_option current_alternatives
     (Option.bind (AddResults env0 7 [r_P1] widget_P_session) (AddResults env0 7 [r_P2]))
     = Some [[r_P2, r_P1]] \<and>
   map_option current_alternatives
     (Option.bind (AddResults env0 7 [r_P2] widget_P_session) (AddResults env0 7 [r_P1]))
     = Some [[r_P2, r_P1]] \<and>
   map_option current_primaries
     (Option.bind (AddResults env0 7 [r_P1] widget_P_session) (AddResults env0 7 [r_P2]))
     = Some [r_P2] \<and>
   r_P2 \<noteq> r_P1"
  by code_simp

section \<open>Rows, positions and candidates\<close>

lemma rows_set_rows: "rows (set_rows m xs w) m' = (if m' = m then xs else rows w m')"
  by (cases m; cases m') (simp_all add: rows_def set_rows_def)

lemma set_rows_pointers [simp]:
  "front_model (set_rows m xs w) = front_model w"
  "back_model (set_rows m xs w) = back_model w"
  "current_model (set_rows m xs w) = current_model w"
  "front_proxy (set_rows m xs w) = front_proxy w"
  "back_proxy (set_rows m xs w) = back_proxy w"
  "current_proxy (set_rows m xs w) = current_proxy w"
  by (cases m; simp add: set_rows_def)+

lemma set_rows_others [simp]:
  "last_id (set_rows m xs w) = last_id w"
  "order_arrived_counter (set_rows m xs w) = order_arrived_counter w"
  "art_requests (set_rows m xs w) = art_requests w"
  "track_requests (set_rows m xs w) = track_requests w"
  "engine_calls (set_rows m xs w) = engine_calls w"
  "combine_identical_results (set_rows m xs w) = combine_identical_results w"
  "provider_order (set_rows m xs w) = provider_order w"
  by (cases m; simp add: set_rows_def)+

lemma set_rows_same [simp]: "set_rows m (rows w m) w = w"
  by (cases m) (simp_all add: set_rows_def rows_def)

lemma set_rows_twice [simp]: "set_rows m xs (set_rows m ys w) = set_rows m xs w"
  by (cases m) (simp_all add: set_rows_def)

lemma appendRow_simps [simp]:
  "rows (appendRow m item w) m' = (if m' = m then rows w m @ [item] else rows w m')"
  "current_model (appendRow m item w) = current_model w"
  "current_proxy (appendRow m item w) = current_proxy w"
  "combine_identical_results (appendRow m item w) = combine_identical_results w"
  by (simp_all add: appendRow_def rows_set_rows)

lemma rows_RepositionPopup [simp]: "rows (RepositionPopup w) m = rows w m"
  by (cases m) (simp_all add: RepositionPopup_def HidePopup_def rows_def)

lemma rows_order_arrived_counter [simp]:
  "rows (w\<lparr>order_arrived_counter := c\<rparr>) m = rows w m"
  by (cases m) (simp_all add: rows_def)

lemma RepositionPopup_frame [simp]:
  "front_model (RepositionPopup w) = front_model w"
  "back_model (RepositionPopup w) = back_model w"
  "current_model (RepositionPopup w) = current_model w"
  "front_proxy (RepositionPopup w) = front_proxy w"
  "back_proxy (RepositionPopup w) = back_proxy w"
  "current_proxy (RepositionPopup w) = current_proxy w"
  "last_id (RepositionPopup w) = last_id w"
  by (simp_all add: RepositionPopup_def HidePopup_def)

lemma position_Some: "position x xs = Some k \<Longrightarrow> k < length xs \<and> xs ! k = x"
  by (induction xs arbitrary: k) (auto split: if_splits)

lemma position_mem: "x \<in> set xs \<Longrightarrow> \<exists>k. position x xs = Some k"
  by (induction xs) auto

lemma rows_before_eq: "rows_before n = rev [0..<n]"
  by (induction n) simp_all

lemma length_removeRow: "i < length xs \<Longrightarrow> Suc (length (removeRow i xs)) = length xs"
  by (auto simp: removeRow_def)

lemma itemFromIndex_Some:
  "itemFromIndex w m index = Some r \<Longrightarrow> index = Some (m, r) \<and> r < length (rows w m)"
  by (cases index) (auto simp: itemFromIndex_def split: if_splits)

lemma sibling_Some:
  "sibling env w (Some (p, k)) r =
     (if r < length (proxy_order env w p) then Some (p, r) else None)"
  by (simp add: sibling_def proxy_index_def)

lemma candidates_Some:
  "set (candidates env w (Some (p, k))) =
     insert (sibling env w (Some (p, k)) (Suc k)) (sibling env w (Some (p, k)) ` {0..<k})"
  by (simp add: candidates_def rows_before_eq)

lemma valid_candidates:
  assumes "row < length (proxy_order env w p)"
  shows "filter (\<lambda>c. c \<noteq> None) (candidates env w (Some (p, row))) =
         map (\<lambda>r. Some (p, r)) (spec_candidates row (length (proxy_order env w p)))"
proof -
  have "filter (\<lambda>c. c \<noteq> None) (map (sibling env w (Some (p, row))) (rev [0..<row]))
        = map (\<lambda>r. Some (p, r)) (rev [0..<row])"
    using assms by (induction row) (auto simp: sibling_def proxy_index_def)
  then show ?thesis
    by (simp add: candidates_def spec_candidates_def rows_before_eq sibling_def proxy_index_def)
qed

section \<open>One scan, at most one merge\<close>

lemma combine_scan_find:
  "combine_scan env my cands w =
     (case find (\<lambda>c. CanCombineResults env w my c \<noteq> Some CannotCombine)
             (filter (\<lambda>c. c \<noteq> None) cands) of
        None \<Rightarrow> Some w
      | Some c \<Rightarrow>
          (case CanCombineResults env w my c of
             Some LeftPreferred \<Rightarrow> CombineResults env my c w
           | Some RightPreferred \<Rightarrow> CombineResults env c my w
           | _ \<Rightarrow> None))"
  by (induction cands) (auto split: option.splits CombineAction.splits)

lemma CombineResults_Some:
  assumes "CombineResults env superior inferior w = Some w'"
  shows "\<exists>xs. w' = set_rows (current_model w) xs w \<and>
              Suc (length xs) = length (rows w (current_model w))"
proof -
  from assms obtain s i where
    s: "itemFromIndex w (current_model w) (mapToSource env w (current_proxy w) superior) = Some s"
    and i: "itemFromIndex w (current_model w) (mapToSource env w (current_proxy w) inferior) = Some i"
    by (auto simp: CombineResults_def Let_def split: option.splits)
  from i have "i < length (rows w (current_model w))"
    by (auto dest: itemFromIndex_Some)
  with assms s i show ?thesis
    by (auto simp: CombineResults_def Let_def length_removeRow)
qed

lemma combine_scan_Some:
  "combine_scan env my cands w = Some w' \<Longrightarrow>
   w' = w \<or> (\<exists>xs. w' = set_rows (current_model w) xs w \<and>
                    Suc (length xs) = length (rows w (current_model w)))"
proof (induction cands)
  case Nil
  then show ?case by simp
next
  case (Cons c cands)
  then show ?case
    by (auto split: if_splits option.splits CombineAction.splits dest: CombineResults_Some)
qed

text \<open>
  C3. Let a result be inserted while combining is enabled, and let the proxy show the
  new row at position \<open>row\<close>. The valid candidates of the scan are exactly the
  specification's list, in its order: the position after \<open>row\<close> if there is one, then
  the positions before \<open>row\<close> from the nearest to the farthest. The insertion is the
  appended model when no candidate can be combined, and otherwise one call of
  \<^verbatim>\<open>CombineResults\<close>, on the first candidate of that list that can be combined.
  So the model gains one row (no merge) or none (one merge), never loses one.
\<close>

theorem add_result_scans_candidates_once:
  assumes "combine_identical_results w"
    and "my_proxy_index env (appendRow (current_model w) (new_item env w result) w) = Some (p, row)"
  shows "filter (\<lambda>c. c \<noteq> None)
           (candidates env (appendRow (current_model w) (new_item env w result) w) (Some (p, row))) =
         map (\<lambda>r. Some (p, r))
           (spec_candidates row
              (length (proxy_order env (appendRow (current_model w) (new_item env w result) w) p))) \<and>
         add_result env w result =
           (case find (\<lambda>c. CanCombineResults env
                              (appendRow (current_model w) (new_item env w result) w)
                              (Some (p, row)) c \<noteq> Some CannotCombine)
                   (map (\<lambda>r. Some (p, r))
                      (spec_candidates row
                         (length (proxy_order env
                            (appendRow (current_model w) (new_item env w result) w) p)))) of
              None \<Rightarrow> Some (appendRow (current_model w) (new_item env w result) w)
            | Some c \<Rightarrow>
                (case CanCombineResults env
                        (appendRow (current_model w) (new_item env w result) w) (Some (p, row)) c of
                   Some LeftPreferred \<Rightarrow>
                     CombineResults env (Some (p, row)) c
                       (appendRow (current_model w) (new_item env w result) w)
                 | Some RightPreferred \<Rightarrow>
                     CombineResults env c (Some (p, row))
                       (appendRow (current_model w) (new_item env w result) w)
                 | _ \<Rightarrow> None)) \<and>
         (\<forall>w'. add_result env w result = Some w' \<longrightarrow>
            length (rows w' (current_model w)) = Suc (length (rows w (current_model w))) \<or>
            length (rows w' (current_model w)) = length (rows w (current_model w)))"
proof -
  let ?w1 = "appendRow (current_model w) (new_item env w result) w"
  from assms(2) have "position (length (rows ?w1 (current_model ?w1)) - 1)
      (proxy_order env ?w1 p) = Some row"
    by (auto simp: my_proxy_index_def mapFromSource_def split: if_splits option.splits)
  then have row: "row < length (proxy_order env ?w1 p)"
    by (auto dest: position_Some)
  have cands: "filter (\<lambda>c. c \<noteq> None) (candidates env ?w1 (Some (p, row))) =
      map (\<lambda>r. Some (p, r)) (spec_candidates row (length (proxy_order env ?w1 p)))"
    using row by (rule valid_candidates)
  have run: "add_result env w result =
      combine_scan env (Some (p, row)) (candidates env ?w1 (Some (p, row))) ?w1"
    using assms by (simp add: add_result_def Let_def)
  have once: "length (rows w' (current_model w)) = Suc (length (rows w (current_model w))) \<or>
      length (rows w' (current_model w)) = length (rows w (current_model w))"
    if "add_result env w result = Some w'" for w'
    using combine_scan_Some [of env "Some (p, row)" "candidates env ?w1 (Some (p, row))" ?w1 w']
      that run by (auto simp: rows_set_rows)
  show ?thesis
    using cands run once by (simp add: combine_scan_find)
qed

text \<open>The theorem at a model of three rows and a fourth result that the proxy shows at
  position 2: the candidates are the positions 3, 1 and 0; the one at 3 cannot be
  combined, the one at 1 can, and the new record takes its alternatives.\<close>

theorem add_result_scans_candidates_once_witness:
  "combine_identical_results widget_three \<and>
   my_proxy_index env0 (appendRow (current_model widget_three)
       (new_item env0 widget_three r_new) widget_three) = Some (Proxy2, 2) \<and>
   filter (\<lambda>c. c \<noteq> None)
     (candidates env0 (appendRow (current_model widget_three)
        (new_item env0 widget_three r_new) widget_three) (Some (Proxy2, 2)))
     = [Some (Proxy2, 3), Some (Proxy2, 1), Some (Proxy2, 0)] \<and>
   map_option current_alternatives (add_result env0 widget_three r_new)
     = Some [[r_library], [r_library\<lparr>match_quality := 2\<rparr>],
             [r_new, r_lastfm\<lparr>match_quality := 1\<rparr>]]"
proof -
  have h1: "combine_identical_results widget_three"
    by code_simp
  have h2: "my_proxy_index env0 (appendRow (current_model widget_three)
       (new_item env0 widget_three r_new) widget_three) = Some (Proxy2, 2)"
    by code_simp
  have sc: "map (\<lambda>r. Some (Proxy2, r)) (spec_candidates 2
      (length (proxy_order env0 (appendRow (current_model widget_three)
         (new_item env0 widget_three r_new) widget_three) Proxy2)))
      = [Some (Proxy2, 3), Some (Proxy2, 1), Some (Proxy2, 0)]"
    by code_simp
  have run: "map_option current_alternatives (add_result env0 widget_three r_new)
     = Some [[r_library], [r_library\<lparr>match_quality := 2\<rparr>],
             [r_new, r_lastfm\<lparr>match_quality := 1\<rparr>]]"
    by code_simp
  from add_result_scans_candidates_once [OF h1 h2] sc
  have "filter (\<lambda>c. c \<noteq> None)
     (candidates env0 (appendRow (current_model widget_three)
        (new_item env0 widget_three r_new) widget_three) (Some (Proxy2, 2)))
     = [Some (Proxy2, 3), Some (Proxy2, 1), Some (Proxy2, 0)]"
    by simp
  with h1 h2 run show ?thesis by simp
qed

section \<open>Merging keeps every alternative\<close>

lemma all_alternatives_append:
  "all_alternatives (xs @ ys) = all_alternatives xs @ all_alternatives ys"
  by (simp add: all_alternatives_def)

lemma all_alternatives_update:
  "k < length xs \<Longrightarrow>
   mset (all_alternatives (xs[k := n])) + mset (Role_AllResults (xs ! k)) =
   mset (all_alternatives xs) + mset (Role_AllResults n)"
proof (induction xs arbitrary: k)
  case Nil
  then show ?case by simp
next
  case (Cons x xs)
  show ?case
  proof (cases k)
    case 0
    then show ?thesis by (simp add: all_alternatives_def)
  next
    case (Suc j)
    with Cons.prems have "j < length xs" by simp
    from Cons.IH [OF this, unfolded all_alternatives_def] Suc show ?thesis
      by (simp add: all_alternatives_def)
  qed
qed

lemma all_alternatives_removeRow:
  assumes "i < length xs"
  shows "mset (all_alternatives (removeRow i xs)) + mset (Role_AllResults (xs ! i)) =
         mset (all_alternatives xs)"
proof -
  have "xs = take i xs @ xs ! i # drop (Suc i) xs"
    using assms by (rule id_take_nth_drop)
  then have "all_alternatives xs =
      all_alternatives (take i xs) @ Role_AllResults (xs ! i) @ all_alternatives (drop (Suc i) xs)"
    by (metis all_alternatives_append all_alternatives_def concat.simps(2) list.simps(9))
  then show ?thesis
    by (simp add: removeRow_def all_alternatives_append)
qed

lemma merge_rows_mset:
  assumes "s < length items" and "i < length items" and "s \<noteq> i"
  shows "mset (all_alternatives (removeRow i (items[s :=
           (items ! s)\<lparr>Role_AllResults := Role_AllResults (items ! s) @ Role_AllResults (items ! i)\<rparr>])))
         = mset (all_alternatives items)"
proof -
  let ?new = "(items ! s)\<lparr>Role_AllResults := Role_AllResults (items ! s) @ Role_AllResults (items ! i)\<rparr>"
  let ?ys = "items[s := ?new]"
  have "mset (all_alternatives (removeRow i ?ys)) + mset (Role_AllResults (?ys ! i)) =
        mset (all_alternatives ?ys)"
    using assms by (intro all_alternatives_removeRow) simp
  moreover have "?ys ! i = items ! i"
    using assms by simp
  moreover have "mset (all_alternatives ?ys) + mset (Role_AllResults (items ! s)) =
        mset (all_alternatives items) + mset (Role_AllResults ?new)"
    using assms by (intro all_alternatives_update) simp
  ultimately have "mset (all_alternatives (removeRow i ?ys)) + mset (Role_AllResults (items ! i))
      + mset (Role_AllResults (items ! s))
      = mset (all_alternatives items) + mset (Role_AllResults (items ! s))
        + mset (Role_AllResults (items ! i))"
    by simp
  then show ?thesis by simp
qed

lemma CombineResults_run:
  assumes "itemFromIndex w (current_model w) (mapToSource env w (current_proxy w) superior) = Some s"
    and "itemFromIndex w (current_model w) (mapToSource env w (current_proxy w) inferior) = Some i"
  shows "CombineResults env superior inferior w =
     Some (set_rows (current_model w)
       (removeRow i ((rows w (current_model w))[s := (rows w (current_model w) ! s)
          \<lparr>Role_AllResults :=
             Role_AllResults (rows w (current_model w) ! s) @
             Role_AllResults (rows w (current_model w) ! i)\<rparr>])) w)"
  using assms by (simp add: CombineResults_def Let_def)

text \<open>
  C6. When \<^verbatim>\<open>CombineResults\<close> is given a superior and an inferior index that map to
  two different rows \<open>s\<close> and \<open>i\<close> of the model being filled, it succeeds, and
  afterwards: the model is the old one with the inferior row removed and the superior
  row's alternatives replaced by its own followed by all of the inferior's; the
  superior row (now at \<open>s\<close>, or at \<open>s - 1\<close> if the removed row was above it) keeps
  its primary result; the model has one row fewer; and the multiset of all the
  alternatives held by the model is unchanged.
\<close>

theorem CombineResults_appends:
  assumes sup: "itemFromIndex w (current_model w)
                  (mapToSource env w (current_proxy w) superior) = Some s"
    and inf: "itemFromIndex w (current_model w)
                (mapToSource env w (current_proxy w) inferior) = Some i"
    and "s \<noteq> i"
  shows "\<exists>w'. CombineResults env superior inferior w = Some w' \<and>
           rows w' (current_model w) =
             removeRow i ((rows w (current_model w))[s := (rows w (current_model w) ! s)
               \<lparr>Role_AllResults :=
                  Role_AllResults (rows w (current_model w) ! s) @
                  Role_AllResults (rows w (current_model w) ! i)\<rparr>]) \<and>
           Role_AllResults (rows w' (current_model w) ! (if i < s then s - 1 else s)) =
             Role_AllResults (rows w (current_model w) ! s) @
             Role_AllResults (rows w (current_model w) ! i) \<and>
           Role_PrimaryResult (rows w' (current_model w) ! (if i < s then s - 1 else s)) =
             Role_PrimaryResult (rows w (current_model w) ! s) \<and>
           Suc (length (rows w' (current_model w))) = length (rows w (current_model w)) \<and>
           mset (all_alternatives (rows w' (current_model w))) =
             mset (all_alternatives (rows w (current_model w)))"
proof -
  let ?items = "rows w (current_model w)"
  let ?new = "(?items ! s)\<lparr>Role_AllResults :=
                  Role_AllResults (?items ! s) @ Role_AllResults (?items ! i)\<rparr>"
  let ?w' = "set_rows (current_model w) (removeRow i (?items[s := ?new])) w"
  from sup inf have s: "s < length ?items" and i: "i < length ?items"
    by (auto dest: itemFromIndex_Some)
  have run: "CombineResults env superior inferior w = Some ?w'"
    using sup inf by (rule CombineResults_run)
  have rows': "rows ?w' (current_model w) = removeRow i (?items[s := ?new])"
    by (simp add: rows_set_rows)
  have at: "removeRow i (?items[s := ?new]) ! (if i < s then s - 1 else s) = ?new"
    using s i \<open>s \<noteq> i\<close> by (auto simp: removeRow_def nth_append min_def)
  have len: "Suc (length (removeRow i (?items[s := ?new]))) = length ?items"
    using i by (simp add: length_removeRow)
  have ms: "mset (all_alternatives (removeRow i (?items[s := ?new]))) =
            mset (all_alternatives ?items)"
    using s i \<open>s \<noteq> i\<close> by (rule merge_rows_mset)
  show ?thesis
    using run rows' at len ms by simp
qed

text \<open>The theorem at the model of four rows: the new record (position 2, row 3) takes
  the alternatives of the record at position 1 (row 2).\<close>

theorem CombineResults_appends_witness:
  "itemFromIndex widget_four (current_model widget_four)
     (mapToSource env0 widget_four (current_proxy widget_four) (Some (Proxy2, 2))) = Some 3 \<and>
   itemFromIndex widget_four (current_model widget_four)
     (mapToSource env0 widget_four (current_proxy widget_four) (Some (Proxy2, 1))) = Some 2 \<and>
   (\<exists>w'. CombineResults env0 (Some (Proxy2, 2)) (Some (Proxy2, 1)) widget_four = Some w' \<and>
         Suc (length (rows w' (current_model widget_four))) =
           length (rows widget_four (current_model widget_four)) \<and>
         mset (all_alternatives (rows w' (current_model widget_four))) =
           mset (all_alternatives (rows widget_four (current_model widget_four)))) \<and>
   map_option current_alternatives
     (CombineResults env0 (Some (Proxy2, 2)) (Some (Proxy2, 1)) widget_four)
     = Some [[r_library], [r_library\<lparr>match_quality := 2\<rparr>],
             [r_new, r_lastfm\<lparr>match_quality := 1\<rparr>]]"
proof -
  have h1: "itemFromIndex widget_four (current_model widget_four)
     (mapToSource env0 widget_four (current_proxy widget_four) (Some (Proxy2, 2))) = Some 3"
    by code_simp
  have h2: "itemFromIndex widget_four (current_model widget_four)
     (mapToSource env0 widget_four (current_proxy widget_four) (Some (Proxy2, 1))) = Some 2"
    by code_simp
  have h3: "(3::nat) \<noteq> 2"
    by simp
  have run: "map_option current_alternatives
     (CombineResults env0 (Some (Proxy2, 2)) (Some (Proxy2, 1)) widget_four)
     = Some [[r_library], [r_library\<lparr>match_quality := 2\<rparr>],
             [r_new, r_lastfm\<lparr>match_quality := 1\<rparr>]]"
    by code_simp
  from CombineResults_appends [OF h1 h2 h3]
  have "\<exists>w'. CombineResults env0 (Some (Proxy2, 2)) (Some (Proxy2, 1)) widget_four = Some w' \<and>
         Suc (length (rows w' (current_model widget_four))) =
           length (rows widget_four (current_model widget_four)) \<and>
         mset (all_alternatives (rows w' (current_model widget_four))) =
           mset (all_alternatives (rows widget_four (current_model widget_four)))"
    by blast
  with h1 h2 run show ?thesis by blast
qed

section \<open>A batch is inserted whole\<close>

lemma shows_every_rowD:
  assumes "shows_every_row env"
  shows "distinct (proxy_rows env items)"
    and "set (proxy_rows env items) = {0..<length items}"
    and "length (proxy_rows env items) = length items"
proof -
  from assms have m: "mset (proxy_rows env items) = mset [0..<length items]"
    by (simp add: shows_every_row_def)
  show "distinct (proxy_rows env items)"
    using m by (metis distinct_upt mset_eq_imp_distinct_iff)
  show "set (proxy_rows env items) = {0..<length items}"
    using m by (metis atLeastLessThan_upt mset_eq_setD)
  show "length (proxy_rows env items) = length items"
    using m by (metis length_upt minus_nat.diff_0 mset_eq_length)
qed

lemma shows_every_row_env0: "shows_every_row env0"
  by (simp add: shows_every_row_def env0_def)

lemma index_data_row:
  assumes "sourceModel p = m" and "r < length (proxy_order env w p)"
    and "proxy_order env w p ! r < length (rows w m)"
  shows "index_data env w (Some (p, r)) = Some (rows w m ! (proxy_order env w p ! r))"
  using assms by (simp add: index_data_def mapToSource_def)

lemma itemFromIndex_row:
  assumes "sourceModel p = m" and "r < length (proxy_order env w p)"
    and "proxy_order env w p ! r < length (rows w m)"
  shows "itemFromIndex w m (mapToSource env w p (Some (p, r))) = Some (proxy_order env w p ! r)"
  using assms by (simp add: itemFromIndex_def mapToSource_def)

lemma candidates_good:
  assumes "k < length (proxy_order env w p)" and "c \<in> set (candidates env w (Some (p, k)))"
  shows "c = None \<or> (\<exists>r. c = Some (p, r) \<and> r < length (proxy_order env w p) \<and> r \<noteq> k)"
proof -
  from assms(2) have "c = sibling env w (Some (p, k)) (Suc k) \<or>
      (\<exists>x\<in>{0..<k}. c = sibling env w (Some (p, k)) x)"
    unfolding candidates_Some by blast
  then have "\<exists>r. (r = Suc k \<or> r < k) \<and> c = sibling env w (Some (p, k)) r"
    using atLeastLessThan_iff by blast
  then obtain r where r: "r = Suc k \<or> r < k" and c: "c = sibling env w (Some (p, k)) r"
    by blast
  from r have ne: "r \<noteq> k" by auto
  show ?thesis
  proof (cases "r < length (proxy_order env w p)")
    case True
    then have "c = Some (p, r)"
      using c by (simp add: sibling_Some)
    with True ne show ?thesis by blast
  next
    case False
    then have "c = None"
      using c by (simp add: sibling_Some)
    then show ?thesis ..
  qed
qed

text \<open>With a proxy that shows every row once, the scan of a record at position \<open>k\<close>
  over candidates at other positions never fails and keeps all the alternatives.\<close>

lemma combine_scan_good:
  assumes al: "sourceModel (current_proxy w) = current_model w"
    and d: "distinct (proxy_order env w (current_proxy w))"
    and st: "set (proxy_order env w (current_proxy w)) = {0..<length (rows w (current_model w))}"
    and k: "k < length (proxy_order env w (current_proxy w))"
    and c: "\<And>c. c \<in> set cands \<Longrightarrow> c = None \<or>
              (\<exists>r. c = Some (current_proxy w, r) \<and>
                   r < length (proxy_order env w (current_proxy w)) \<and> r \<noteq> k)"
  shows "\<exists>xs. combine_scan env (Some (current_proxy w, k)) cands w
                 = Some (set_rows (current_model w) xs w) \<and>
              mset (all_alternatives xs) = mset (all_alternatives (rows w (current_model w)))"
  using c
proof (induction cands)
  case Nil
  have "combine_scan env (Some (current_proxy w, k)) [] w
          = Some (set_rows (current_model w) (rows w (current_model w)) w)"
    by simp
  then show ?case by blast
next
  case (Cons c cands)
  let ?p = "current_proxy w" and ?m = "current_model w"
  let ?ord = "proxy_order env w ?p"
  have IH: "\<exists>xs. combine_scan env (Some (?p, k)) cands w = Some (set_rows ?m xs w) \<and>
              mset (all_alternatives xs) = mset (all_alternatives (rows w ?m))"
    using Cons by simp
  from Cons.prems [of c] consider "c = None"
    | r where "c = Some (?p, r)" "r < length ?ord" "r \<noteq> k"
    by auto
  then show ?case
  proof cases
    case 1
    with IH show ?thesis by simp
  next
    case 2
    have kin: "?ord ! k < length (rows w ?m)" and rin: "?ord ! r < length (rows w ?m)"
      using st k 2(2) nth_mem [of k ?ord] nth_mem [of r ?ord] by auto
    have ne: "?ord ! k \<noteq> ?ord ! r"
      using d k 2(2,3) by (simp add: nth_eq_iff_index_eq)
    have dk: "index_data env w (Some (?p, k)) = Some (rows w ?m ! (?ord ! k))"
      using al k kin by (rule index_data_row)
    have dr: "index_data env w (Some (?p, r)) = Some (rows w ?m ! (?ord ! r))"
      using al 2(2) rin by (rule index_data_row)
    have ik: "itemFromIndex w ?m (mapToSource env w ?p (Some (?p, k))) = Some (?ord ! k)"
      using al k kin by (rule itemFromIndex_row)
    have ir: "itemFromIndex w ?m (mapToSource env w ?p (Some (?p, r))) = Some (?ord ! r)"
      using al 2(2) rin by (rule itemFromIndex_row)
    have merged: "\<exists>xs. CombineResults env a b w = Some (set_rows ?m xs w) \<and>
        mset (all_alternatives xs) = mset (all_alternatives (rows w ?m))"
      if "(a = Some (?p, k) \<and> b = Some (?p, r)) \<or> (a = Some (?p, r) \<and> b = Some (?p, k))"
      for a b
    proof -
      from that obtain s i where
        s: "itemFromIndex w ?m (mapToSource env w ?p a) = Some s"
        and i: "itemFromIndex w ?m (mapToSource env w ?p b) = Some i" and "s \<noteq> i"
        using ik ir ne by auto
      from s i have "s < length (rows w ?m)" and "i < length (rows w ?m)"
        by (auto dest: itemFromIndex_Some)
      from merge_rows_mset [OF this \<open>s \<noteq> i\<close>] CombineResults_run [OF s i]
      show ?thesis by blast
    qed
    show ?thesis
    proof (cases "CanCombine (foldCase env) (provider_order w)
                    (Role_PrimaryResult (rows w ?m ! (?ord ! k)))
                    (Role_PrimaryResult (rows w ?m ! (?ord ! r)))")
      case CannotCombine
      with IH 2 dk dr show ?thesis
        by (simp add: CanCombineResults_def)
    next
      case LeftPreferred
      with merged [of "Some (?p, k)" "Some (?p, r)"] 2 dk dr show ?thesis
        by (simp add: CanCombineResults_def)
    next
      case RightPreferred
      with merged [of "Some (?p, r)" "Some (?p, k)"] 2 dk dr show ?thesis
        by (simp add: CanCombineResults_def)
    qed
  qed
qed

text \<open>With such a proxy, and the current proxy sorting the current model, the row just
  appended has a valid proxy index: the premise of the theorem on the candidates.\<close>

lemma my_proxy_index_appendRow:
  assumes "shows_every_row env" and "sourceModel (current_proxy w) = current_model w"
  shows "\<exists>row. my_proxy_index env (appendRow (current_model w) item w)
                 = Some (current_proxy w, row)"
proof -
  let ?w1 = "appendRow (current_model w) item w"
  let ?ord = "proxy_order env ?w1 (current_proxy w)"
  have "set ?ord = {0..<length (rows ?w1 (current_model w))}"
    using shows_every_rowD [OF assms(1)] assms(2) by (simp add: proxy_order_def)
  then have "length (rows ?w1 (current_model w)) - 1 \<in> set ?ord"
    by simp
  then obtain k where "position (length (rows ?w1 (current_model w)) - 1) ?ord = Some k"
    by (auto dest: position_mem)
  then have "my_proxy_index env ?w1 = Some (current_proxy w, k)"
    using assms(2) by (simp add: my_proxy_index_def mapFromSource_def)
  then show ?thesis ..
qed

lemma add_result_total:
  assumes ser: "shows_every_row env" and al: "sourceModel (current_proxy w) = current_model w"
  shows "\<exists>xs. add_result env w result = Some (set_rows (current_model w) xs w) \<and>
              mset (all_alternatives xs) =
                add_mset result (mset (all_alternatives (rows w (current_model w))))"
proof -
  let ?m = "current_model w" and ?p = "current_proxy w"
  let ?w1 = "appendRow ?m (new_item env w result) w"
  let ?ord = "proxy_order env ?w1 ?p"
  have w1: "?w1 = set_rows ?m (rows w ?m @ [new_item env w result]) w"
    by (simp add: appendRow_def)
  have aa: "mset (all_alternatives (rows ?w1 ?m)) =
            add_mset result (mset (all_alternatives (rows w ?m)))"
    by (simp add: all_alternatives_def new_item_def)
  show ?thesis
  proof (cases "combine_identical_results w")
    case False
    then have "add_result env w result = Some ?w1"
      by (simp add: add_result_def Let_def)
    then have "add_result env w result =
        Some (set_rows ?m (rows w ?m @ [new_item env w result]) w)"
      by (simp only: w1)
    moreover have "mset (all_alternatives (rows w ?m @ [new_item env w result])) =
        add_mset result (mset (all_alternatives (rows w ?m)))"
      by (simp add: all_alternatives_def new_item_def)
    ultimately show ?thesis by blast
  next
    case True
    have d: "distinct ?ord" and st: "set ?ord = {0..<length (rows ?w1 ?m)}"
      using shows_every_rowD [OF ser] al by (simp_all add: proxy_order_def)
    have "length (rows ?w1 ?m) - 1 \<in> set ?ord"
      using st by simp
    then obtain k where pos: "position (length (rows ?w1 ?m) - 1) ?ord = Some k"
      by (auto dest: position_mem)
    then have k: "k < length ?ord"
      by (auto dest: position_Some)
    have my: "my_proxy_index env ?w1 = Some (?p, k)"
      using pos al by (simp add: my_proxy_index_def mapFromSource_def)
    have "\<exists>xs. combine_scan env (Some (current_proxy ?w1, k))
                   (candidates env ?w1 (Some (current_proxy ?w1, k))) ?w1
                 = Some (set_rows (current_model ?w1) xs ?w1) \<and>
              mset (all_alternatives xs) = mset (all_alternatives (rows ?w1 (current_model ?w1)))"
    proof (rule combine_scan_good)
      show "sourceModel (current_proxy ?w1) = current_model ?w1"
        using al by simp
      show "distinct (proxy_order env ?w1 (current_proxy ?w1))"
        using d by simp
      show "set (proxy_order env ?w1 (current_proxy ?w1)) =
            {0..<length (rows ?w1 (current_model ?w1))}"
        using st by simp
      show "k < length (proxy_order env ?w1 (current_proxy ?w1))"
        using k by simp
      show "c = None \<or> (\<exists>r. c = Some (current_proxy ?w1, r) \<and>
               r < length (proxy_order env ?w1 (current_proxy ?w1)) \<and> r \<noteq> k)"
        if "c \<in> set (candidates env ?w1 (Some (current_proxy ?w1, k)))" for c
        using candidates_good [OF _ that] k by simp
    qed
    then obtain xs where
      run: "combine_scan env (Some (?p, k)) (candidates env ?w1 (Some (?p, k))) ?w1
              = Some (set_rows ?m xs ?w1)"
      and ms: "mset (all_alternatives xs) = mset (all_alternatives (rows ?w1 ?m))"
      by auto
    have "add_result env w result = Some (set_rows ?m xs ?w1)"
      using True my run by (simp add: add_result_def Let_def)
    moreover have "set_rows ?m xs ?w1 = set_rows ?m xs w"
      by (simp add: appendRow_def)
    ultimately have "add_result env w result = Some (set_rows ?m xs w)"
      by simp
    moreover have "mset (all_alternatives xs) =
        add_mset result (mset (all_alternatives (rows w ?m)))"
      using ms aa by simp
    ultimately show ?thesis by blast
  qed
qed

lemma add_results_loop_total:
  assumes "shows_every_row env" and "sourceModel (current_proxy w) = current_model w"
  shows "\<exists>xs. add_results_loop env w results = Some (set_rows (current_model w) xs w) \<and>
              mset (all_alternatives xs) =
                mset (all_alternatives (rows w (current_model w))) + mset results"
  using assms(2)
proof (induction results arbitrary: w)
  case Nil
  have "add_results_loop env w [] = Some (set_rows (current_model w) (rows w (current_model w)) w)"
    by simp
  moreover have "mset (all_alternatives (rows w (current_model w))) =
      mset (all_alternatives (rows w (current_model w))) + mset []"
    by simp
  ultimately show ?case by blast
next
  case (Cons r results)
  from add_result_total [OF assms(1) Cons.prems, of r] obtain xs where
    one: "add_result env w r = Some (set_rows (current_model w) xs w)"
    and ms: "mset (all_alternatives xs) =
               add_mset r (mset (all_alternatives (rows w (current_model w))))"
    by blast
  let ?w' = "set_rows (current_model w) xs w"
  have "sourceModel (current_proxy ?w') = current_model ?w'"
    using Cons.prems by simp
  from Cons.IH [OF this] obtain ys where
    rest: "add_results_loop env ?w' results = Some (set_rows (current_model ?w') ys ?w')"
    and ms': "mset (all_alternatives ys) =
                mset (all_alternatives (rows ?w' (current_model ?w'))) + mset results"
    by blast
  have "add_results_loop env w (r # results) = Some (set_rows (current_model w) ys w)"
    using one rest by simp
  moreover have "mset (all_alternatives ys) =
      mset (all_alternatives (rows w (current_model w))) + mset (r # results)"
    using ms ms' by (simp add: rows_set_rows)
  ultimately show ?case by blast
qed

section \<open>Batches that arrive after the cutover\<close>

lemma proxies_aligned_new: "proxies_aligned (GlobalSearchWidget_new combine order)"
  by (simp add: proxies_aligned_def GlobalSearchWidget_new_def)

lemma proxies_aligned_TextEdited:
  "proxies_aligned w \<Longrightarrow> proxies_aligned (TextEdited env search_id text w)"
  by (simp add: proxies_aligned_def TextEdited_def Let_def)

lemma proxies_aligned_SwapModels: "proxies_aligned w \<Longrightarrow> proxies_aligned (SwapModels w)"
  by (auto simp: proxies_aligned_def SwapModels_def)

text \<open>\<^verbatim>\<open>SwapModels\<close> does not assign \<^verbatim>\<open>current_model_\<close>: after the cutover of a
  search the model that \<^verbatim>\<open>AddResults\<close> fills is the one the view shows.\<close>

lemma current_is_front_after_cutover:
  "3 \<le> length (trimmed (isSpace env) text) \<Longrightarrow>
   current_model (SwapModels (TextEdited env search_id text w)) =
   front_model (SwapModels (TextEdited env search_id text w))"
  by (simp add: SwapModels_def TextEdited_def Let_def)

text \<open>
  C5, as the code has it. From the cutover of a search until the next query starts,
  \<^verbatim>\<open>current_model_\<close> is \<^verbatim>\<open>front_model_\<close>. A batch of the current search that
  arrives then (with a sort proxy that shows every row once) is inserted into, and
  combined within, the \<^emph>\<open>active\<close> model: every result of the batch joins the
  alternatives that the view shows. What such a batch leaves unchanged is the other,
  back model, and which model has which role; the premises hold again afterwards, so
  the same is true of every later batch of the search.
\<close>

theorem AddResults_after_cutover:
  assumes "shows_every_row env" and "proxies_aligned w" and "current_model w = front_model w"
  shows "\<exists>w'. AddResults env (last_id w) results w = Some w' \<and>
           front_model w' = front_model w \<and> back_model w' = back_model w \<and>
           current_model w' = front_model w' \<and> proxies_aligned w' \<and>
           last_id w' = last_id w \<and>
           rows w' (back_model w') = rows w (back_model w) \<and>
           mset (all_alternatives (rows w' (front_model w'))) =
             mset (all_alternatives (rows w (front_model w))) + mset results"
proof -
  from assms(2) have al: "sourceModel (current_proxy w) = current_model w"
    and ne: "front_model w \<noteq> back_model w"
    by (simp_all add: proxies_aligned_def)
  from add_results_loop_total [OF assms(1) al, of results] obtain xs where
    loop: "add_results_loop env w results = Some (set_rows (current_model w) xs w)"
    and ms: "mset (all_alternatives xs) =
               mset (all_alternatives (rows w (current_model w))) + mset results"
    by blast
  let ?w' = "RepositionPopup
    ((set_rows (current_model w) xs w)
       \<lparr>order_arrived_counter := order_arrived_counter (set_rows (current_model w) xs w) + 1\<rparr>)"
  have "AddResults env (last_id w) results w = Some ?w'"
    using loop by (simp add: AddResults_def)
  moreover have "rows ?w' m = rows (set_rows (current_model w) xs w) m" for m
    by simp
  moreover have "proxies_aligned ?w'"
    using assms(2) by (simp add: proxies_aligned_def)
  ultimately show ?thesis
    using ms ne assms(3) by (simp add: rows_set_rows)
qed

text \<open>The theorem at the widget whose timer has just fired for search 7.\<close>

theorem AddResults_after_cutover_witness:
  "shows_every_row env0 \<and>
   proxies_aligned (swap_models_timer_timeout widget_session) \<and>
   current_model (swap_models_timer_timeout widget_session) =
     front_model (swap_models_timer_timeout widget_session) \<and>
   (\<exists>w'. AddResults env0 (last_id (swap_models_timer_timeout widget_session)) [r_library]
            (swap_models_timer_timeout widget_session) = Some w' \<and>
         rows w' (back_model w') = rows (swap_models_timer_timeout widget_session)
            (back_model (swap_models_timer_timeout widget_session)) \<and>
         mset (all_alternatives (rows w' (front_model w'))) =
           mset (all_alternatives (rows (swap_models_timer_timeout widget_session)
             (front_model (swap_models_timer_timeout widget_session)))) + mset [r_library])"
proof -
  have h1: "shows_every_row env0"
    by (rule shows_every_row_env0)
  have h2: "proxies_aligned (swap_models_timer_timeout widget_session)"
    by code_simp
  have h3: "current_model (swap_models_timer_timeout widget_session) =
     front_model (swap_models_timer_timeout widget_session)"
    by code_simp
  from AddResults_after_cutover [OF h1 h2 h3, of "[r_library]"] h1 h2 h3
  show ?thesis by blast
qed

text \<open>C5 as the specification states it fails. The query \<open>dark side\<close> starts search
  7 and the timer fires: the view shows no row. A batch of search 7 that arrives now
  changes what the view shows, and a second batch is combined into the row the view
  shows.\<close>

theorem AddResults_after_cutover_is_visible:
  "front_alternatives (swap_models_timer_timeout widget_session) = [] \<and>
   map_option front_alternatives
     (AddResults env0 7 [r_library] (swap_models_timer_timeout widget_session))
     = Some [[r_library]] \<and>
   map_option front_alternatives
     (AddResults env0 7 [r_library] (swap_models_timer_timeout widget_session))
     \<noteq> Some (front_alternatives (swap_models_timer_timeout widget_session)) \<and>
   map_option front_alternatives
     (Option.bind (AddResults env0 7 [r_library] (swap_models_timer_timeout widget_session))
        (AddResults env0 7 [r_lastfm]))
     = Some [[r_library, r_lastfm]]"
  by code_simp

section \<open>Stale batches\<close>

lemma last_id_TextEdited:
  "3 \<le> length (trimmed (isSpace env) text) \<Longrightarrow>
   last_id (TextEdited env search_id text w) = search_id"
  by (simp add: TextEdited_def Let_def)

text \<open>
  C4. A batch whose search identifier is not the current one (\<^verbatim>\<open>last_id_\<close>, the
  identifier of the search started last) is discarded whole: \<^verbatim>\<open>AddResults\<close>
  returns the widget as it was, with both models, the arrival counter and the two
  request tables unchanged.
\<close>

theorem stale_AddResults_discarded:
  "search_id \<noteq> last_id w \<Longrightarrow> AddResults env search_id results w = Some w"
  by (simp add: AddResults_def)

theorem stale_AddResults_discarded_witness:
  "(3::int) \<noteq> last_id widget_session \<and>
   AddResults env0 3 [r_library] widget_session = Some widget_session"
proof -
  have h: "(3::int) \<noteq> last_id widget_session"
    by code_simp
  show ?thesis
    using h stale_AddResults_discarded [OF h, of env0 "[r_library]"] by simp
qed

section \<open>Short queries\<close>

lemma widget_shown_reached:
  "AddResults env0 7 [r_library] (swap_models_timer_timeout widget_session) = Some widget_shown"
  by (simp add: AddResults_def add_result_def widget_shown_def swap_models_timer_timeout_def
      widget_session_def TextEdited_def trimmed_def env0_def widget0_def GlobalSearchWidget_new_def
      SwapModels_def RepositionPopup_def HidePopup_def Let_def rows_def set_rows_def appendRow_def
      new_item_def my_proxy_index_def mapFromSource_def proxy_order_def candidates_def
      sibling_def proxy_index_def)

text \<open>
  C7, as the code has it. A query whose trimmed text is shorter than 3 characters starts
  no search: \<^verbatim>\<open>TextEdited\<close> is \<^verbatim>\<open>RepositionPopup\<close> alone, so no call is made on the
  engine and no model, counter, identifier, pointer, timer or request table changes. The
  popup is hidden when the active model has no row; when it has rows the popup is
  placed again and is visible afterwards.
\<close>

theorem short_query_starts_no_search:
  assumes "length (trimmed (isSpace env) text) < 3"
  shows "TextEdited env search_id text w = RepositionPopup w \<and>
         engine_calls (TextEdited env search_id text w) = engine_calls w \<and>
         last_id (TextEdited env search_id text w) = last_id w \<and>
         order_arrived_counter (TextEdited env search_id text w) = order_arrived_counter w \<and>
         rows (TextEdited env search_id text w) m = rows w m \<and>
         current_model (TextEdited env search_id text w) = current_model w \<and>
         front_model (TextEdited env search_id text w) = front_model w \<and>
         back_model (TextEdited env search_id text w) = back_model w \<and>
         art_requests (TextEdited env search_id text w) = art_requests w \<and>
         track_requests (TextEdited env search_id text w) = track_requests w \<and>
         swap_models_timer_active (TextEdited env search_id text w) = swap_models_timer_active w \<and>
         view_isVisible (TextEdited env search_id text w) = (rows w (front_model w) \<noteq> [])"
proof -
  have run: "TextEdited env search_id text w = RepositionPopup w"
    using assms by (simp add: TextEdited_def Let_def)
  have "rows (RepositionPopup w) m = rows w m"
    by simp
  moreover have "engine_calls (RepositionPopup w) = engine_calls w"
    and "order_arrived_counter (RepositionPopup w) = order_arrived_counter w"
    and "art_requests (RepositionPopup w) = art_requests w"
    and "track_requests (RepositionPopup w) = track_requests w"
    and "swap_models_timer_active (RepositionPopup w) = swap_models_timer_active w"
    and "view_isVisible (RepositionPopup w) = (rows w (front_model w) \<noteq> [])"
    by (simp_all add: RepositionPopup_def HidePopup_def)
  ultimately show ?thesis
    unfolding run by simp
qed

theorem short_query_starts_no_search_witness:
  "length (trimmed (isSpace env0) ''ab'') < 3 \<and>
   TextEdited env0 8 ''ab'' widget_session = RepositionPopup widget_session \<and>
   engine_calls (TextEdited env0 8 ''ab'' widget_session) = engine_calls widget_session \<and>
   view_isVisible (TextEdited env0 8 ''ab'' widget_session) = False"
proof -
  have h: "length (trimmed (isSpace env0) ''ab'') < 3"
    by code_simp
  have e: "rows widget_session (front_model widget_session) = []"
    by code_simp
  from short_query_starts_no_search [OF h, of 8 widget_session]
  have a: "TextEdited env0 8 ''ab'' widget_session = RepositionPopup widget_session"
    and b: "engine_calls (TextEdited env0 8 ''ab'' widget_session) = engine_calls widget_session"
    and c: "view_isVisible (TextEdited env0 8 ''ab'' widget_session) =
      (rows widget_session (front_model widget_session) \<noteq> [])"
    by blast+
  from c e have "view_isVisible (TextEdited env0 8 ''ab'' widget_session) = False"
    by simp
  with h a b show ?thesis by blast
qed

text \<open>C7 as the specification states it fails. The widget shows one row of search 7 in
  its popup; the query \<open>ab\<close>, of two characters, leaves the popup visible.\<close>

theorem short_query_keeps_popup:
  "AddResults env0 7 [r_library] (swap_models_timer_timeout widget_session) = Some widget_shown \<and>
   length (trimmed (isSpace env0) ''ab'') = 2 \<and>
   view_isVisible widget_shown = True \<and>
   view_isVisible (TextEdited env0 8 ''ab'' widget_shown) = True"
proof -
  have "length (trimmed (isSpace env0) ''ab'') = 2 \<and>
     view_isVisible widget_shown = True \<and>
     view_isVisible (TextEdited env0 8 ''ab'' widget_shown) = True"
    by code_simp
  with widget_shown_reached show ?thesis by simp
qed

section \<open>Firing the timer twice\<close>

lemma timer_started_by_TextEdited:
  "3 \<le> length (trimmed (isSpace env) text) \<Longrightarrow>
   swap_models_timer_active (TextEdited env search_id text w)"
  by (simp add: TextEdited_def Let_def)







section \<open>Art that arrives after the cutover\<close>

lemma SwapModels_art_requests: "art_requests (SwapModels w) = Map.empty"
  by (simp add: SwapModels_def RepositionPopup_def HidePopup_def)

text \<open>
  C9. \<^verbatim>\<open>SwapModels\<close> empties the table of art requests. \<^verbatim>\<open>ArtLoaded\<close> for an
  identifier that the table does not hold returns the widget as it was, so no item's
  decoration is set; in particular every \<^verbatim>\<open>ArtLoaded\<close> that comes right after a
  cutover does so, whatever was requested before.
\<close>

theorem ArtLoaded_after_SwapModels:
  "art_requests (SwapModels w) = Map.empty \<and>
   ArtLoaded art_id pixmap (SwapModels w) = Some (SwapModels w) \<and>
   (art_requests w art_id = None \<longrightarrow> ArtLoaded art_id pixmap w = Some w)"
  by (simp add: ArtLoaded_def SwapModels_art_requests)

text \<open>The theorem at the specification's scenario: art is requested under the
  identifier 42 for the row that the popup shows, the models are swapped, and then
  the art arrives.\<close>

theorem ArtLoaded_after_SwapModels_witness:
  "art_requests widget_shown 42 = None \<and>
   ArtLoaded 42 9 widget_shown = Some widget_shown \<and>
   map_option (\<lambda>w. art_requests w 42) (LazyLoadArt env0 42 (Some (Proxy2, 0)) widget_shown)
     = Some (Some (Model2, 0)) \<and>
   Option.bind (LazyLoadArt env0 42 (Some (Proxy2, 0)) widget_shown)
       (ArtLoaded 42 9 \<circ> SwapModels)
     = map_option SwapModels (LazyLoadArt env0 42 (Some (Proxy2, 0)) widget_shown)"
proof -
  have h: "art_requests widget_shown 42 = None"
    by code_simp
  have req: "map_option (\<lambda>w. art_requests w 42)
      (LazyLoadArt env0 42 (Some (Proxy2, 0)) widget_shown) = Some (Some (Model2, 0))"
    by code_simp
  have late: "Option.bind v (ArtLoaded 42 9 \<circ> SwapModels) = map_option SwapModels v" for v
    using ArtLoaded_after_SwapModels [of _ 42 9] by (cases v) simp_all
  from ArtLoaded_after_SwapModels [of widget_shown 42 9] h
  have "ArtLoaded 42 9 widget_shown = Some widget_shown"
    by blast
  with h req late show ?thesis by blast
qed

section \<open>Activating an entry\<close>

lemma LoadTracks_request:
  assumes "LoadTracks_index env w \<noteq> None" and "0 \<le> LoadTracks_result_index w"
    and "LoadTracks_result_index w < int (length (LoadTracks_results env w))"
  shows "LoadTracks env track_id trigger w =
     w\<lparr>engine_calls := engine_calls w @
          [LoadTracksAsync (LoadTracks_results env w ! nat (LoadTracks_result_index w))],
       track_requests := (track_requests w)(track_id \<mapsto> trigger)\<rparr>"
  using assms by (auto simp: LoadTracks_def Let_def)

text \<open>
  C10. When \<^verbatim>\<open>LoadTracks\<close> finds no valid index (the view has no current index and
  the front proxy has no row 0), or the alternative asked for is negative or not below
  the number of alternatives of the index, it returns the widget as it was: no
  \<^verbatim>\<open>LoadTracksAsync\<close> call is made and the table of track requests is unchanged.
\<close>

theorem LoadTracks_noop:
  "LoadTracks_index env w = None \<or> LoadTracks_result_index w < 0 \<or>
   int (length (LoadTracks_results env w)) \<le> LoadTracks_result_index w
   \<Longrightarrow> LoadTracks env track_id trigger w = w"
  by (auto simp: LoadTracks_def Let_def)

text \<open>The theorem at a widget with no row, and at the popup of one row with one
  alternative while the tooltip asks for the alternative 5.\<close>

theorem LoadTracks_noop_witness:
  "LoadTracks_index env0 widget0 = None \<and>
   LoadTracks env0 9 (Some add_and_queue) widget0 = widget0 \<and>
   LoadTracks_index env0 (widget_shown\<lparr>tooltip := Some tooltip5\<rparr>) = Some (Proxy2, 0) \<and>
   LoadTracks_result_index (widget_shown\<lparr>tooltip := Some tooltip5\<rparr>) = 5 \<and>
   length (LoadTracks_results env0 (widget_shown\<lparr>tooltip := Some tooltip5\<rparr>)) = 1 \<and>
   LoadTracks env0 9 None (widget_shown\<lparr>tooltip := Some tooltip5\<rparr>) =
     widget_shown\<lparr>tooltip := Some tooltip5\<rparr>"
proof -
  have a: "LoadTracks_index env0 widget0 = None"
    by code_simp
  have b: "LoadTracks_index env0 (widget_shown\<lparr>tooltip := Some tooltip5\<rparr>) = Some (Proxy2, 0)"
    "LoadTracks_result_index (widget_shown\<lparr>tooltip := Some tooltip5\<rparr>) = 5"
    "length (LoadTracks_results env0 (widget_shown\<lparr>tooltip := Some tooltip5\<rparr>)) = 1"
    by code_simp+
  have "LoadTracks env0 9 (Some add_and_queue) widget0 = widget0"
    using a by (intro LoadTracks_noop) simp
  moreover have "LoadTracks env0 9 None (widget_shown\<lparr>tooltip := Some tooltip5\<rparr>) =
     widget_shown\<lparr>tooltip := Some tooltip5\<rparr>"
    using b by (intro LoadTracks_noop) simp
  ultimately show ?thesis
    using a b by blast
qed

end
